theory Spec2Isabelle
  imports Main "HOL-Library.Char_ord" "HOL-Library.List_Lexorder" "HOL-Library.Multiset"
    "HOL-Library.Sublist"
begin

section \<open>The data frame\<close>

text \<open>
  The program works on a pandas DataFrame delivered by \<open>parse_skill_data\<close>, which only
  returns a frame that has the columns \<open>'Element ID'\<close> and \<open>'Element Name'\<close>. A row
  carries the cells of the four columns the program ever reads. \<open>optional_columns\<close>
  lists the names of the columns the frame has beyond the two required ones; the cells
  \<open>region\<close> and \<open>job_type\<close> of a row are read only when the column is listed.
  A cell \<open>None\<close> is an empty cell (pandas' NaN); the cells of the two required columns
  are taken to be filled. Skill names are Python strings, ordered lexicographically by code
  point; job type identifiers are of any totally ordered type (\<open>groupby\<close> sorts them).
\<close>

record 'k row =
  element_id :: 'k
  element_name :: string
  region :: "string option"
  job_type :: "string option"

record 'k dataframe =
  optional_columns :: "string list"
  rows :: "'k row list"

datatype error = KeyError string

text \<open>
  \<open>Series.unique()\<close>: the distinct values in order of first appearance
  (an empty cell is a value like any other).
\<close>

fun unique :: "'a list \<Rightarrow> 'a list" where
  "unique [] = []"
| "unique (x # xs) = x # unique (filter (\<lambda>y. y \<noteq> x) xs)"

text \<open>
  A Python \<open>dict\<close> keeps insertion order: an association list in which storing under an
  existing key replaces the value in place and storing under a new key appends.
\<close>

fun dict_set :: "'a \<Rightarrow> 'b \<Rightarrow> ('a \<times> 'b) list \<Rightarrow> ('a \<times> 'b) list" where
  "dict_set k v [] = [(k, v)]"
| "dict_set k v ((k', v') # d) =
     (if k = k' then (k', v) # d else (k', v') # dict_set k v d)"

section \<open>Aggregation of co-occurrences (lines 51 to 60)\<close>

text \<open>
  \<open>df.groupby('Element ID')\<close> iterates over the distinct keys in ascending order; each
  group holds the rows of that key in their original order.
\<close>

definition groupby_element_id :: "('k::linorder) dataframe \<Rightarrow> ('k \<times> 'k row list) list" where
  "groupby_element_id df =
     map (\<lambda>k. (k, filter (\<lambda>r. element_id r = k) (rows df)))
         (sort (unique (map element_id (rows df))))"

text \<open>\<open>tuple(sorted((a, b)))\<close>\<close>

definition sorted_pair :: "string \<Rightarrow> string \<Rightarrow> string \<times> string" where
  "sorted_pair a b = (if b < a then (b, a) else (a, b))"

text \<open>The two nested index loops of lines 57 to 59, in the order they produce the pairs.\<close>

definition group_pairs :: "string list \<Rightarrow> (string \<times> string) list" where
  "group_pairs skills =
     concat (map (\<lambda>i. map (\<lambda>j. sorted_pair (skills ! i) (skills ! j))
                          [i + 1 ..< length skills])
                 [0 ..< length skills])"

type_synonym pair_count = "((string \<times> string) \<times> int) list"

text \<open>\<open>co_occurrence[pair] += 1\<close> on a \<open>defaultdict(int)\<close>: a missing key reads as 0.\<close>

definition get0 :: "('a \<times> int) list \<Rightarrow> 'a \<Rightarrow> int" where
  "get0 co p = (case map_of co p of None \<Rightarrow> 0 | Some c \<Rightarrow> c)"

definition increment :: "'a \<Rightarrow> ('a \<times> int) list \<Rightarrow> ('a \<times> int) list" where
  "increment p co = dict_set p (get0 co p + 1) co"

definition count_group :: "'k \<times> 'k row list \<Rightarrow> pair_count \<Rightarrow> pair_count" where
  "count_group g co = fold increment (group_pairs (unique (map element_name (snd g)))) co"

definition co_occurrence_of :: "('k \<times> 'k row list) list \<Rightarrow> pair_count" where
  "co_occurrence_of groups = fold count_group groups []"

definition co_occurrence :: "('k::linorder) dataframe \<Rightarrow> pair_count" where
  "co_occurrence df = co_occurrence_of (groupby_element_id df)"

section \<open>The graph (networkx.Graph)\<close>

text \<open>
  A \<open>networkx.Graph\<close> keeps, for every node, an attribute dict and a dict of neighbours with
  the edge data; both are created together when the node is added. The only edge attribute
  this program ever sets is \<open>weight\<close>, so the edge data is the weight.
\<close>

record node_entry =
  attrs :: "(string \<times> string option) list"
  nbrs :: "(string \<times> int) list"

type_synonym graph = "(string \<times> node_entry) list"

text \<open>\<open>G.add_node(n, region=r)\<close>\<close>

definition add_node :: "string \<Rightarrow> string option \<Rightarrow> graph \<Rightarrow> graph" where
  "add_node n r G =
     (case map_of G n of
        None \<Rightarrow> dict_set n \<lparr>attrs = [(''region'', r)], nbrs = []\<rparr> G
      | Some e \<Rightarrow> dict_set n (e\<lparr>attrs := dict_set ''region'' r (attrs e)\<rparr>) G)"

text \<open>\<open>G.add_edge(u, v, weight=w)\<close>: an endpoint that is not yet a node is added without
  attributes, then the weight is stored in the neighbour dicts of both endpoints.\<close>

definition ensure_node :: "string \<Rightarrow> graph \<Rightarrow> graph" where
  "ensure_node n G =
     (case map_of G n of None \<Rightarrow> dict_set n \<lparr>attrs = [], nbrs = []\<rparr> G | Some e \<Rightarrow> G)"

definition set_nbr :: "string \<Rightarrow> string \<Rightarrow> int \<Rightarrow> graph \<Rightarrow> graph" where
  "set_nbr u v w G =
     map (\<lambda>(n, e). if n = u then (n, e\<lparr>nbrs := dict_set v w (nbrs e)\<rparr>) else (n, e)) G"

definition add_edge :: "string \<Rightarrow> string \<Rightarrow> int \<Rightarrow> graph \<Rightarrow> graph" where
  "add_edge u v w G = set_nbr v u w (set_nbr u v w (ensure_node v (ensure_node u G)))"

text \<open>\<open>G[a][b]['weight']\<close>, when \<open>a\<close> is a node and \<open>b\<close> one of its neighbours.\<close>

definition edge_weight :: "graph \<Rightarrow> string \<Rightarrow> string \<Rightarrow> int option" where
  "edge_weight G a b = (case map_of G a of None \<Rightarrow> None | Some e \<Rightarrow> map_of (nbrs e) b)"

section \<open>Graph construction (lines 62 to 72)\<close>

text \<open>Line 65 and the expression of line 66: the region attribute given to a skill's node.\<close>

definition node_region :: "'k dataframe \<Rightarrow> string \<Rightarrow> string option" where
  "node_region df skill =
     (if ''Region'' \<in> set (optional_columns df)
      then (case unique (map region (filter (\<lambda>r. element_name r = skill) (rows df))) of
              [] \<Rightarrow> None
            | r # _ \<Rightarrow> r)
      else None)"

definition add_nodes :: "'k dataframe \<Rightarrow> graph \<Rightarrow> graph" where
  "add_nodes df G =
     fold (\<lambda>skill G. add_node skill (node_region df skill) G)
          (unique (map element_name (rows df))) G"

definition add_edges :: "pair_count \<Rightarrow> graph \<Rightarrow> graph" where
  "add_edges co G = fold (\<lambda>((skill1, skill2), weight) G. add_edge skill1 skill2 weight G) co G"

definition create_weighted_skill_graph :: "('k::linorder) dataframe \<Rightarrow> graph" where
  "create_weighted_skill_graph df = add_edges (co_occurrence df) (add_nodes df [])"

section \<open>Regional insights (lines 86 to 93)\<close>

datatype insight = Counts "(string \<times> int) list" | Message string

text \<open>
  \<open>df.groupby('Region')['JobType'].nunique().to_dict()\<close>: selecting a column the frame does
  not have raises \<open>KeyError\<close>; otherwise every region (empty cells dropped, ascending) is
  mapped to the number of distinct non-empty \<open>'JobType'\<close> cells of its rows.
\<close>

definition region_counts :: "'k dataframe \<Rightarrow> (string \<times> int) list" where
  "region_counts df =
     map (\<lambda>rg. (rg, int (length (unique (filter (\<lambda>c. c \<noteq> None)
                  (map job_type (filter (\<lambda>r. region r = Some rg) (rows df))))))))
         (sort (unique (map the (filter (\<lambda>c. c \<noteq> None) (map region (rows df))))))"

definition get_regional_insights :: "'k dataframe \<Rightarrow> error + (string \<times> insight) list" where
  "get_regional_insights df =
     (if ''Region'' \<in> set (optional_columns df)
      then (if ''JobType'' \<in> set (optional_columns df)
            then Inr [(''job_types_by_region'', Counts (region_counts df))]
            else Inl (KeyError ''Column not found: JobType''))
      else Inr [(''job_types_by_region'', Message ''No regional data available.'')])"

section \<open>The query (lines 129 to 144)\<close>

text \<open>
  \<open>sorted(xs, key=f, reverse=True)\<close>: Python sorts the reversed list stably in ascending
  order and reverses the result, so elements with equal keys keep their original order.
\<close>

definition sorted_reverse :: "('a \<Rightarrow> int) \<Rightarrow> 'a list \<Rightarrow> 'a list" where
  "sorted_reverse key xs = rev (sort_key key (rev xs))"

definition sorted_neighbors :: "(string \<times> int) list \<Rightarrow> (string \<times> int) list" where
  "sorted_neighbors neighbors = sorted_reverse snd neighbors"

definition top_neighbors :: "(string \<times> int) list \<Rightarrow> (string \<times> int) list" where
  "top_neighbors neighbors = take 10 (sorted_neighbors neighbors)"

fun str_nat :: "nat \<Rightarrow> string" where
  "str_nat n =
     (if n < 10 then [char_of (48 + n)] else str_nat (n div 10) @ [char_of (48 + n mod 10)])"

definition str_int :: "int \<Rightarrow> string" where
  "str_int i = (if i < 0 then CHR ''-'' # str_nat (nat (- i)) else str_nat (nat i))"

definition neighbor_line :: "string \<times> int \<Rightarrow> string" where
  "neighbor_line x = ''- '' @ fst x @ '' (Co-occurrence weight: '' @ str_int (snd x) @ '')''"

text \<open>
  \<open>user_interface\<close>, with \<open>skill_id\<close> the stripped line read from the terminal (line 129).
  The result is the outcome of the call (it returns \<open>None\<close>, here \<open>Inr ()\<close>; an exception
  would be \<open>Inl\<close>) and the texts given to \<open>print\<close>, one per call.
\<close>

definition user_interface :: "graph \<Rightarrow> string \<Rightarrow> (error + unit) \<times> string list" where
  "user_interface G skill_id =
     (case map_of G skill_id of
        None \<Rightarrow> (Inr (), [''Skill ID not found in the network.''])
      | Some e \<Rightarrow>
          (Inr (),
           [CHR 0x0A # ''Top related skills for '' @ skill_id @ '':'']
           @ map neighbor_line (top_neighbors (nbrs e))
           @ [CHR 0x0A # ''Job types for these skill pairs: [Feature to be implemented]'' @ [CHR 0x0A]]))"

section \<open>Auxiliary notions for the proofs\<close>

definition pos :: "('a \<times> int) list \<Rightarrow> bool" where
  "pos co \<longleftrightarrow> (\<forall>p c. map_of co p = Some c \<longrightarrow> 0 < c)"

definition skills_of :: "'k \<times> 'k row list \<Rightarrow> string set" where
  "skills_of g = element_name ` set (snd g)"

definition paired :: "'k \<times> 'k row list \<Rightarrow> string \<times> string \<Rightarrow> bool" where
  "paired g p \<longleftrightarrow> fst p \<in> skills_of g \<and> snd p \<in> skills_of g \<and> fst p < snd p"

definition fresh_node :: "string option \<Rightarrow> node_entry" where
  "fresh_node r = \<lparr>attrs = [(''region'', r)], nbrs = []\<rparr>"

definition endpoints_in :: "pair_count \<Rightarrow> graph \<Rightarrow> bool" where
  "endpoints_in co G \<longleftrightarrow> (\<forall>a b w. ((a, b), w) \<in> set co \<longrightarrow> a \<in> fst ` set G \<and> b \<in> fst ` set G)"

definition canonical :: "pair_count \<Rightarrow> bool" where
  "canonical co \<longleftrightarrow> distinct (map fst co) \<and> (\<forall>a b w. ((a, b), w) \<in> set co \<longrightarrow> a < b)"

text \<open>
  The job types (values of \<open>'Element ID'\<close>) that have a row for skill \<open>a\<close> and a row for
  skill \<open>b\<close>: the groups in which both skills appear, however many rows mention them.
\<close>

definition groups_with_both :: "'k dataframe \<Rightarrow> string \<Rightarrow> string \<Rightarrow> 'k set" where
  "groups_with_both df a b =
     element_id ` {r \<in> set (rows df). element_name r = a}
     \<inter> element_id ` {r \<in> set (rows df). element_name r = b}"

definition nbrs_distinct :: "graph \<Rightarrow> bool" where
  "nbrs_distinct G \<longleftrightarrow> (\<forall>n e. (n, e) \<in> set G \<longrightarrow> distinct (map fst (nbrs e)))"

section \<open>The spec's reading of two claims\<close>

text \<open>
  The region the spec gives a skill: the first non-empty region cell among the skill's
  rows, in record order.
\<close>

definition first_nonempty_region :: "'k dataframe \<Rightarrow> string \<Rightarrow> string option" where
  "first_nonempty_region df skill =
     (case filter (\<lambda>c. c \<noteq> None) (map region (filter (\<lambda>r. element_name r = skill) (rows df))) of
        [] \<Rightarrow> None
      | c # _ \<Rightarrow> c)"

text \<open>
  The order the spec gives the neighbours: weight descending, equal weights by ascending
  skill identifier.
\<close>

definition descending_then_lexicographic :: "(string \<times> int) list \<Rightarrow> bool" where
  "descending_then_lexicographic xs =
     sorted_wrt (\<lambda>x y. snd y < snd x \<or> (snd x = snd y \<and> fst x \<le> fst y)) xs"

section \<open>Example frames\<close>

definition mk_row :: "nat \<Rightarrow> string \<Rightarrow> string option \<Rightarrow> nat row" where
  "mk_row k n r = \<lparr>element_id = k, element_name = n, region = r, job_type = None\<rparr>"

text \<open>The example of the spec: job 1 needs A, B and C, job 2 needs A and B.\<close>

definition df_spec :: "nat dataframe" where
  "df_spec = \<lparr>optional_columns = [],
              rows = [mk_row 1 ''A'' None, mk_row 1 ''B'' None, mk_row 1 ''C'' None,
                      mk_row 2 ''A'' None, mk_row 2 ''B'' None]\<rparr>"

text \<open>One job lists A, C, B in this order; the skill A has no region in its first row.\<close>

definition df_tie :: "nat dataframe" where
  "df_tie = \<lparr>optional_columns = [''Region''],
             rows = [mk_row 1 ''A'' None, mk_row 1 ''C'' None, mk_row 1 ''B'' None,
                     mk_row 2 ''A'' (Some ''West'')]\<rparr>"

text \<open>A skill D that shares no job with another skill.\<close>

definition df_lonely :: "nat dataframe" where
  "df_lonely = \<lparr>optional_columns = [''Region''],
                rows = [mk_row 1 ''A'' (Some ''East''), mk_row 1 ''B'' (Some ''East''),
                        mk_row 1 ''A'' (Some ''West''), mk_row 2 ''D'' None]\<rparr>"

text \<open>Job 1 needs A and B, job 2 needs B and C.\<close>

definition df_chain :: "nat dataframe" where
  "df_chain = \<lparr>optional_columns = [],
               rows = [mk_row 1 ''A'' None, mk_row 1 ''B'' None,
                       mk_row 2 ''B'' None, mk_row 2 ''C'' None]\<rparr>"

section \<open>Lemmas\<close>

lemma set_unique [simp]: "set (unique xs) = set xs"
  by (induction xs rule: unique.induct) auto

lemma distinct_unique [simp]: "distinct (unique xs)"
  by (induction xs rule: unique.induct) auto

lemma map_of_dict_set [simp]: "map_of (dict_set k v d) = (map_of d)(k \<mapsto> v)"
  by (induction d) (auto simp: fun_eq_iff)

lemma dict_set_new: "k \<notin> fst ` set d \<Longrightarrow> dict_set k v d = d @ [(k, v)]"
  by (induction d) auto

lemma keys_dict_set: "fst ` set (dict_set k v d) = insert k (fst ` set d)"
  by (simp flip: dom_map_of_conv_image_fst)

lemma distinct_dict_set: "distinct (map fst d) \<Longrightarrow> distinct (map fst (dict_set k v d))"
  by (induction d) (force simp: keys_dict_set)+

lemma group_pairs_Cons:
  "group_pairs (x # xs) = map (sorted_pair x) xs @ group_pairs xs"
proof -
  have a: "map (\<lambda>j. sorted_pair x ((x # xs) ! j)) [Suc 0 ..< Suc (length xs)] = map (sorted_pair x) xs"
    by (rule nth_equalityI) (simp_all del: upt_Suc flip: map_Suc_upt)
  show ?thesis
    apply (simp add: group_pairs_def upt_conv_Cons del: upt_Suc)
    apply (simp add: a del: upt_Suc)
    apply (simp del: upt_Suc flip: map_Suc_upt add: comp_def)
    done
qed

lemma sorted_pair_less: "x \<noteq> y \<Longrightarrow> sorted_pair x y = (a, b) \<Longrightarrow> a < b"
  by (auto simp: sorted_pair_def split: if_splits)

lemma sorted_pair_inj: "sorted_pair x y = sorted_pair x y' \<Longrightarrow> x \<noteq> y \<Longrightarrow> x \<noteq> y' \<Longrightarrow> y = y'"
  by (auto simp: sorted_pair_def split: if_splits)

lemma set_group_pairs:
  "distinct xs \<Longrightarrow> set (group_pairs xs) = {(a, b). a \<in> set xs \<and> b \<in> set xs \<and> a < b}"
proof (induction xs)
  case Nil
  show ?case by (simp add: group_pairs_def)
next
  case (Cons x xs)
  then show ?case
    by (auto simp: group_pairs_Cons sorted_pair_def split: if_splits)
qed

lemma distinct_group_pairs: "distinct xs \<Longrightarrow> distinct (group_pairs xs)"
proof (induction xs)
  case Nil
  show ?case by (simp add: group_pairs_def)
next
  case (Cons x xs)
  have inj: "inj_on (sorted_pair x) (set xs)"
    using Cons.prems by (auto intro!: inj_onI dest: sorted_pair_inj)
  have disj: "sorted_pair x ` set xs \<inter> set (group_pairs xs) = {}"
    using Cons.prems by (auto simp: set_group_pairs sorted_pair_def split: if_splits)
  show ?case
    using Cons inj disj by (simp add: group_pairs_Cons distinct_map)
qed

lemma count_list_distinct: "distinct xs \<Longrightarrow> count_list xs x = (if x \<in> set xs then 1 else 0)"
  by (induction xs) auto

lemma get0_increment: "get0 (increment q co) p = get0 co p + (if p = q then 1 else 0)"
  by (simp add: get0_def increment_def)

lemma get0_fold_increment: "get0 (fold increment ps co) p = get0 co p + int (count_list ps p)"
  by (induction ps arbitrary: co) (auto simp: get0_increment)

lemma pos_get0_nonneg: "pos co \<Longrightarrow> 0 \<le> get0 co p"
  by (auto simp: pos_def get0_def split: option.splits dest: less_imp_le)

lemma pos_increment: "pos co \<Longrightarrow> pos (increment q co)"
  using pos_get0_nonneg[of co q] by (auto simp: pos_def increment_def)

lemma pos_fold_increment: "pos co \<Longrightarrow> pos (fold increment ps co)"
  by (induction ps arbitrary: co) (auto simp: pos_increment)

lemma pos_map_of: "pos co \<Longrightarrow> map_of co p = (if get0 co p = 0 then None else Some (get0 co p))"
  by (auto simp: pos_def get0_def split: option.splits)

lemma distinct_increment: "distinct (map fst co) \<Longrightarrow> distinct (map fst (increment q co))"
  by (simp add: increment_def distinct_dict_set)

lemma keys_increment: "fst ` set (increment q co) = insert q (fst ` set co)"
  by (simp add: increment_def keys_dict_set)

lemma keys_fold_increment: "fst ` set (fold increment ps co) = set ps \<union> fst ` set co"
  by (induction ps arbitrary: co) (auto simp: keys_increment)

lemma distinct_fold_increment: "distinct (map fst co) \<Longrightarrow> distinct (map fst (fold increment ps co))"
  by (induction ps arbitrary: co) (auto simp: distinct_increment)

lemma get0_count_group:
  "get0 (count_group g co) p = get0 co p + (if paired g p then 1 else 0)"
  by (cases p) (simp add: count_group_def get0_fold_increment count_list_distinct
      distinct_group_pairs set_group_pairs paired_def skills_of_def)

lemma pos_count_group: "pos co \<Longrightarrow> pos (count_group g co)"
  by (simp add: count_group_def pos_fold_increment)

lemma get0_fold_count_group:
  "get0 (fold count_group gs co) p = get0 co p + int (length (filter (\<lambda>g. paired g p) gs))"
  by (induction gs arbitrary: co) (auto simp: get0_count_group)

lemma pos_fold_count_group: "pos co \<Longrightarrow> pos (fold count_group gs co)"
  by (induction gs arbitrary: co) (auto simp: pos_count_group)

lemma pos_Nil: "pos []"
  by (simp add: pos_def)

lemma get0_co_occurrence_of:
  "get0 (co_occurrence_of gs) p = int (length (filter (\<lambda>g. paired g p) gs))"
  unfolding co_occurrence_of_def get0_fold_count_group by (simp add: get0_def)

lemma pos_co_occurrence_of: "pos (co_occurrence_of gs)"
  by (simp add: co_occurrence_of_def pos_fold_count_group pos_Nil)

lemma distinct_co_occurrence_of: "distinct (map fst (co_occurrence_of gs))"
proof -
  have "distinct (map fst co) \<Longrightarrow> distinct (map fst (fold count_group gs co))" for co :: pair_count
    by (induction gs arbitrary: co) (auto simp: count_group_def distinct_fold_increment)
  then show ?thesis by (simp add: co_occurrence_of_def)
qed

lemma map_of_co_occurrence_of:
  "map_of (co_occurrence_of gs) p =
     (if filter (\<lambda>g. paired g p) gs = [] then None
      else Some (int (length (filter (\<lambda>g. paired g p) gs))))"
  by (simp add: pos_map_of[OF pos_co_occurrence_of] get0_co_occurrence_of)

lemma co_permute:
  assumes "mset gs' = mset gs"
  shows "map_of (co_occurrence_of gs') = map_of (co_occurrence_of gs)"
proof
  fix p
  have "mset (filter (\<lambda>g. paired g p) gs') = mset (filter (\<lambda>g. paired g p) gs)"
    using assms by simp
  then have "length (filter (\<lambda>g. paired g p) gs') = length (filter (\<lambda>g. paired g p) gs)"
    by (rule mset_eq_length)
  then show "map_of (co_occurrence_of gs') p = map_of (co_occurrence_of gs) p"
    unfolding map_of_co_occurrence_of by (metis length_0_conv)
qed

lemma map_of_None_keys: "map_of d k = None \<longleftrightarrow> k \<notin> fst ` set d"
  by (simp add: map_of_eq_None_iff)

lemma fold_add_node:
  "distinct ss \<Longrightarrow> set ss \<inter> fst ` set G = {} \<Longrightarrow>
   fold (\<lambda>s G. add_node s (f s) G) ss G = G @ map (\<lambda>s. (s, fresh_node (f s))) ss"
proof (induction ss arbitrary: G)
  case Nil
  show ?case by simp
next
  case (Cons s ss)
  have new: "s \<notin> fst ` set G" using Cons.prems by auto
  then have step: "add_node s (f s) G = G @ [(s, fresh_node (f s))]"
    by (simp add: add_node_def map_of_None_keys[THEN iffD2] dict_set_new fresh_node_def)
  have disj: "set ss \<inter> fst ` set (G @ [(s, fresh_node (f s))]) = {}"
    using Cons.prems by auto
  show ?case
    using Cons.IH[OF _ disj] Cons.prems(1) by (simp add: step)
qed

lemma add_nodes_Nil:
  "add_nodes df [] = map (\<lambda>s. (s, fresh_node (node_region df s))) (unique (map element_name (rows df)))"
  by (simp add: add_nodes_def fold_add_node)

lemma keys_set_nbr [simp]: "map fst (set_nbr u v w G) = map fst G"
  by (induction G) (auto simp: set_nbr_def)

lemma map_of_set_nbr:
  "map_of (set_nbr u v w G) n =
     (if n = u then map_option (\<lambda>e. e\<lparr>nbrs := dict_set v w (nbrs e)\<rparr>) (map_of G u)
      else map_of G n)"
  by (induction G) (auto simp: set_nbr_def)

lemma ensure_node_present: "n \<in> fst ` set G \<Longrightarrow> ensure_node n G = G"
  by (auto simp: ensure_node_def map_of_None_keys split: option.splits)

lemma add_edge_present:
  "u \<in> fst ` set G \<Longrightarrow> v \<in> fst ` set G \<Longrightarrow> add_edge u v w G = set_nbr v u w (set_nbr u v w G)"
  by (simp add: add_edge_def ensure_node_present)

lemma keys_add_edge: "u \<in> fst ` set G \<Longrightarrow> v \<in> fst ` set G \<Longrightarrow> map fst (add_edge u v w G) = map fst G"
  by (simp add: add_edge_present)

lemma attrs_add_edge:
  "u \<in> fst ` set G \<Longrightarrow> v \<in> fst ` set G \<Longrightarrow>
   map_option attrs (map_of (add_edge u v w G) n) = map_option attrs (map_of G n)"
  by (cases "map_of G n") (auto simp: add_edge_present map_of_set_nbr map_of_None_keys)

lemma weight_add_edge:
  "u \<in> fst ` set G \<Longrightarrow> v \<in> fst ` set G \<Longrightarrow>
   edge_weight (add_edge u v w G) x y =
     (if (x = u \<and> y = v) \<or> (x = v \<and> y = u) then Some w else edge_weight G x y)"
  by (cases "map_of G u"; cases "map_of G v")
     (auto simp: add_edge_present edge_weight_def map_of_set_nbr map_of_None_keys split: option.splits)

lemma endpoints_in_Cons:
  "endpoints_in (((a, b), w) # co) G \<longleftrightarrow> a \<in> fst ` set G \<and> b \<in> fst ` set G \<and> endpoints_in co G"
  by (auto simp: endpoints_in_def)

lemma endpoints_in_keys: "map fst G' = map fst G \<Longrightarrow> endpoints_in co G' = endpoints_in co G"
  by (metis endpoints_in_def set_map)

lemma keys_add_edges: "endpoints_in co G \<Longrightarrow> map fst (add_edges co G) = map fst G"
proof (induction co arbitrary: G)
  case Nil
  show ?case by (simp add: add_edges_def)
next
  case (Cons e co)
  obtain a b w where e: "e = ((a, b), w)" by (metis surj_pair)
  from Cons.prems have ab: "a \<in> fst ` set G" "b \<in> fst ` set G" and rest: "endpoints_in co G"
    by (simp_all add: e endpoints_in_Cons)
  have k: "map fst (add_edge a b w G) = map fst G" using ab by (rule keys_add_edge)
  have "endpoints_in co (add_edge a b w G)" using rest endpoints_in_keys[OF k] by simp
  from Cons.IH[OF this] show ?case using k by (simp add: add_edges_def e)
qed

lemma attrs_add_edges:
  "endpoints_in co G \<Longrightarrow> map_option attrs (map_of (add_edges co G) n) = map_option attrs (map_of G n)"
proof (induction co arbitrary: G)
  case Nil
  show ?case by (simp add: add_edges_def)
next
  case (Cons e co)
  obtain a b w where e: "e = ((a, b), w)" by (metis surj_pair)
  from Cons.prems have ab: "a \<in> fst ` set G" "b \<in> fst ` set G" and rest: "endpoints_in co G"
    by (simp_all add: e endpoints_in_Cons)
  have k: "map fst (add_edge a b w G) = map fst G" using ab by (rule keys_add_edge)
  have "endpoints_in co (add_edge a b w G)" using rest endpoints_in_keys[OF k] by simp
  from Cons.IH[OF this] show ?case using attrs_add_edge[OF ab] by (simp add: add_edges_def e)
qed

lemma canonical_Cons:
  "canonical (((a, b), w) # co) \<longleftrightarrow> (a, b) \<notin> fst ` set co \<and> a < b \<and> canonical co"
  by (auto simp: canonical_def)

lemma canonical_key_less: "canonical co \<Longrightarrow> ((a, b), w) \<in> set co \<Longrightarrow> a < b"
  unfolding canonical_def by blast

lemma weight_add_edges:
  "endpoints_in co G \<Longrightarrow> canonical co \<Longrightarrow>
   edge_weight (add_edges co G) x y =
     (case map_of co (x, y) of Some w \<Rightarrow> Some w
      | None \<Rightarrow> (case map_of co (y, x) of Some w \<Rightarrow> Some w | None \<Rightarrow> edge_weight G x y))"
proof (induction co arbitrary: G)
  case Nil
  show ?case by (simp add: add_edges_def)
next
  case (Cons e co)
  obtain a b w where e: "e = ((a, b), w)" by (metis surj_pair)
  from Cons.prems have ab: "a \<in> fst ` set G" "b \<in> fst ` set G" and rest: "endpoints_in co G"
    by (simp_all add: e endpoints_in_Cons)
  from Cons.prems have fresh: "(a, b) \<notin> fst ` set co" and less: "a < b" and can: "canonical co"
    by (simp_all add: e canonical_Cons)
  have notrev: "(b, a) \<notin> fst ` set co"
  proof
    assume "(b, a) \<in> fst ` set co"
    then obtain w' where "((b, a), w') \<in> set co" by force
    from canonical_key_less[OF can this] less show False by simp
  qed
  have k: "map fst (add_edge a b w G) = map fst G" using ab by (rule keys_add_edge)
  have ep: "endpoints_in co (add_edge a b w G)" using rest endpoints_in_keys[OF k] by simp
  have n1: "map_of co (a, b) = None" using fresh by (simp add: map_of_None_keys)
  have n2: "map_of co (b, a) = None" using notrev by (simp add: map_of_None_keys)
  have "edge_weight (add_edges (e # co) G) x y = edge_weight (add_edges co (add_edge a b w G)) x y"
    by (simp add: add_edges_def e)
  also have "\<dots> = (case map_of co (x, y) of Some w \<Rightarrow> Some w
      | None \<Rightarrow> (case map_of co (y, x) of Some w \<Rightarrow> Some w
                  | None \<Rightarrow> edge_weight (add_edge a b w G) x y))"
    by (rule Cons.IH[OF ep can])
  also have "\<dots> = (case map_of (e # co) (x, y) of Some w \<Rightarrow> Some w
      | None \<Rightarrow> (case map_of (e # co) (y, x) of Some w \<Rightarrow> Some w | None \<Rightarrow> edge_weight G x y))"
    using n1 n2 less by (auto simp: e weight_add_edge[OF ab] split: option.splits)
  finally show ?case .
qed

lemma finite_groups_with_both [simp]: "finite (groups_with_both df a b)"
  by (simp add: groups_with_both_def)

lemma groups_with_both_commute: "groups_with_both df a b = groups_with_both df b a"
  by (auto simp: groups_with_both_def)

lemma mem_groups_with_both:
  "k \<in> groups_with_both df a b \<longleftrightarrow>
     (\<exists>r \<in> set (rows df). element_id r = k \<and> element_name r = a) \<and>
     (\<exists>r \<in> set (rows df). element_id r = k \<and> element_name r = b)"
  unfolding groups_with_both_def by (simp add: image_iff Bex_def) metis

lemma paired_group:
  "paired (k, filter (\<lambda>r. element_id r = k) (rows df)) (a, b)
     \<longleftrightarrow> a < b \<and> k \<in> groups_with_both df a b"
  unfolding mem_groups_with_both paired_def skills_of_def by (simp add: image_iff Bex_def) metis

lemma filter_paired_groupby:
  "filter (\<lambda>g. paired g (a, b)) (groupby_element_id df) =
     map (\<lambda>k. (k, filter (\<lambda>r. element_id r = k) (rows df)))
       (filter (\<lambda>k. a < b \<and> k \<in> groups_with_both df a b) (sort (unique (map element_id (rows df)))))"
  by (simp add: groupby_element_id_def filter_map comp_def paired_group)

lemma length_paired_groupby:
  "length (filter (\<lambda>g. paired g (a, b)) (groupby_element_id df)) =
     (if a < b then card (groups_with_both df a b) else 0)"
proof -
  let ?ks = "sort (unique (map element_id (rows df)))"
  have d: "distinct ?ks" by simp
  have sub: "groups_with_both df a b \<subseteq> set ?ks"
    by (auto simp: groups_with_both_def)
  have "length (filter (\<lambda>k. k \<in> groups_with_both df a b) ?ks) = card (groups_with_both df a b)"
    using sub by (simp add: distinct_length_filter[OF d] Int_absorb2 Collect_mem_eq)
  then show ?thesis
    by (simp add: filter_paired_groupby)
qed

lemma map_of_co_occurrence:
  "map_of (co_occurrence df) (a, b) =
     (if a < b \<and> groups_with_both df a b \<noteq> {}
      then Some (int (card (groups_with_both df a b))) else None)"
proof -
  have "map_of (co_occurrence df) (a, b) =
      (if length (filter (\<lambda>g. paired g (a, b)) (groupby_element_id df)) = 0 then None
       else Some (int (length (filter (\<lambda>g. paired g (a, b)) (groupby_element_id df)))))"
    unfolding co_occurrence_def map_of_co_occurrence_of by simp
  then show ?thesis
    unfolding length_paired_groupby by (simp add: card_gt_0_iff)
qed

lemma co_occurrence_entry:
  assumes "((a, b), w) \<in> set (co_occurrence df)"
  shows "a < b \<and> groups_with_both df a b \<noteq> {} \<and> w = int (card (groups_with_both df a b))"
proof -
  have "distinct (map fst (co_occurrence df))"
    by (simp add: co_occurrence_def distinct_co_occurrence_of)
  then have "map_of (co_occurrence df) (a, b) = Some w"
    using assms by simp
  then show ?thesis
    by (simp add: map_of_co_occurrence split: if_splits)
qed

lemma canonical_co_occurrence: "canonical (co_occurrence df)"
  unfolding canonical_def
  using co_occurrence_entry[of _ _ _ df]
  by (simp add: co_occurrence_def distinct_co_occurrence_of)

lemma keys_add_nodes: "map fst (add_nodes df []) = unique (map element_name (rows df))"
  by (simp add: add_nodes_Nil comp_def)

lemma endpoints_co_occurrence: "endpoints_in (co_occurrence df) (add_nodes df [])"
proof -
  have "a \<in> element_name ` set (rows df) \<and> b \<in> element_name ` set (rows df)"
    if "((a, b), w) \<in> set (co_occurrence df)" for a b w
  proof -
    from co_occurrence_entry[OF that] obtain k where "k \<in> groups_with_both df a b" by blast
    then show ?thesis by (auto simp: groups_with_both_def)
  qed
  then show ?thesis
    unfolding endpoints_in_def using keys_add_nodes[of df]
    by (metis set_map set_unique)
qed

lemma map_of_add_nodes:
  "map_of (add_nodes df []) s =
     (if s \<in> element_name ` set (rows df) then Some (fresh_node (node_region df s)) else None)"
proof -
  have "map_of (map (\<lambda>s. (s, f s)) ss) s = (if s \<in> set ss then Some (f s) else None)"
    for f :: "string \<Rightarrow> node_entry" and ss
    by (induction ss) auto
  then show ?thesis by (simp add: add_nodes_Nil)
qed

lemma weight_add_nodes: "edge_weight (add_nodes df []) x y = None"
  by (simp add: edge_weight_def map_of_add_nodes fresh_node_def)

lemma keys_create: "map fst (create_weighted_skill_graph df) = unique (map element_name (rows df))"
  by (simp add: create_weighted_skill_graph_def keys_add_edges[OF endpoints_co_occurrence] keys_add_nodes)

lemma edge_weight_create:
  "edge_weight (create_weighted_skill_graph df) x y =
     (if x \<noteq> y \<and> groups_with_both df x y \<noteq> {}
      then Some (int (card (groups_with_both df x y))) else None)"
proof -
  have "edge_weight (create_weighted_skill_graph df) x y =
      (case map_of (co_occurrence df) (x, y) of Some w \<Rightarrow> Some w
       | None \<Rightarrow> (case map_of (co_occurrence df) (y, x) of Some w \<Rightarrow> Some w | None \<Rightarrow> None))"
    unfolding create_weighted_skill_graph_def
    by (simp add: weight_add_edges[OF endpoints_co_occurrence canonical_co_occurrence] weight_add_nodes
        cong: option.case_cong)
  then show ?thesis
    unfolding map_of_co_occurrence groups_with_both_commute[of df y x]
    by (cases "x < y"; cases "y < x") auto
qed

lemma set_sorted_reverse [simp]: "set (sorted_reverse f xs) = set xs"
  by (simp add: sorted_reverse_def)

lemma length_sorted_reverse [simp]: "length (sorted_reverse f xs) = length xs"
  by (simp add: sorted_reverse_def)

lemma sorted_reverse_descending: "sorted_wrt (\<lambda>x y. f y \<le> f x) (sorted_reverse f xs)"
proof -
  have "sorted (map f (sort_key f (rev xs)))" by (rule sorted_sort_key)
  then have "sorted_wrt (\<lambda>x y. f x \<le> f y) (sort_key f (rev xs))"
    by (simp add: sorted_wrt_map)
  then show ?thesis
    by (simp add: sorted_reverse_def sorted_wrt_rev)
qed

lemma sorted_reverse_stable:
  "filter (\<lambda>y. f y = k) (sorted_reverse f xs) = filter (\<lambda>y. f y = k) xs"
  by (simp add: sorted_reverse_def sort_key_stable flip: rev_filter)

lemma prefix_filter_take: "prefix (filter P (take n xs)) (filter P xs)"
proof -
  have "filter P xs = filter P (take n xs) @ filter P (drop n xs)"
    by (simp flip: filter_append)
  then show ?thesis by (metis prefixI)
qed

lemma nbrs_distinct_set_nbr: "nbrs_distinct G \<Longrightarrow> nbrs_distinct (set_nbr u v w G)"
  unfolding nbrs_distinct_def set_nbr_def
  by (auto simp: distinct_dict_set split: if_splits)

lemma nbrs_distinct_add_edges:
  "endpoints_in co G \<Longrightarrow> nbrs_distinct G \<Longrightarrow> nbrs_distinct (add_edges co G)"
proof (induction co arbitrary: G)
  case Nil
  then show ?case by (simp add: add_edges_def)
next
  case (Cons e co)
  obtain a b w where e: "e = ((a, b), w)" by (metis surj_pair)
  from Cons.prems have ab: "a \<in> fst ` set G" "b \<in> fst ` set G" and rest: "endpoints_in co G"
    by (simp_all add: e endpoints_in_Cons)
  have k: "map fst (add_edge a b w G) = map fst G" using ab by (rule keys_add_edge)
  have ep: "endpoints_in co (add_edge a b w G)" using rest endpoints_in_keys[OF k] by simp
  have nd: "nbrs_distinct (add_edge a b w G)"
    using Cons.prems(2) by (simp add: add_edge_present[OF ab] nbrs_distinct_set_nbr)
  from Cons.IH[OF ep nd] show ?case by (simp add: add_edges_def e)
qed

lemma nbrs_distinct_add_nodes: "nbrs_distinct (add_nodes df [])"
  by (auto simp: nbrs_distinct_def add_nodes_Nil fresh_node_def)

lemma nbrs_distinct_create: "nbrs_distinct (create_weighted_skill_graph df)"
  unfolding create_weighted_skill_graph_def
  by (rule nbrs_distinct_add_edges[OF endpoints_co_occurrence nbrs_distinct_add_nodes])

lemma neighbor_weight:
  assumes "map_of (create_weighted_skill_graph df) a = Some e"
  shows "(b, w) \<in> set (nbrs e) \<longleftrightarrow> edge_weight (create_weighted_skill_graph df) a b = Some w"
proof -
  have "(a, e) \<in> set (create_weighted_skill_graph df)"
    using assms by (rule map_of_SomeD)
  then have "distinct (map fst (nbrs e))"
    using nbrs_distinct_create[of df] unfolding nbrs_distinct_def by blast
  then have "(b, w) \<in> set (nbrs e) \<longleftrightarrow> map_of (nbrs e) b = Some w"
    by simp
  then show ?thesis by (simp add: edge_weight_def assms)
qed

lemma node_present:
  "map_of (create_weighted_skill_graph df) s \<noteq> None \<longleftrightarrow> s \<in> element_name ` set (rows df)"
proof -
  have "map_of (create_weighted_skill_graph df) s = None \<longleftrightarrow>
        s \<notin> set (map fst (create_weighted_skill_graph df))"
    by (simp add: map_of_eq_None_iff)
  then show ?thesis by (simp add: keys_create)
qed

lemma attrs_create:
  "map_option attrs (map_of (create_weighted_skill_graph df) s) =
     (if s \<in> element_name ` set (rows df) then Some [(''region'', node_region df s)] else None)"
  unfolding create_weighted_skill_graph_def
  by (simp add: attrs_add_edges[OF endpoints_co_occurrence] map_of_add_nodes fresh_node_def)

lemma find_filter: "List.find P xs = Some r \<Longrightarrow> \<exists>rest. filter P xs = r # rest"
  by (induction xs) (auto split: if_splits)

lemma node_region_first:
  assumes "List.find (\<lambda>r. element_name r = s) (rows df) = Some r"
  shows "node_region df s = (if ''Region'' \<in> set (optional_columns df) then region r else None)"
proof -
  from find_filter[OF assms] obtain rest
    where "filter (\<lambda>r. element_name r = s) (rows df) = r # rest" by blast
  then show ?thesis by (simp add: node_region_def)
qed

lemma printed_neighbors:
  "map_of G s = Some e \<Longrightarrow>
   butlast (tl (snd (user_interface G s))) = map neighbor_line (top_neighbors (nbrs e))"
  by (simp add: user_interface_def butlast_append)

section \<open>Claims\<close>

text \<open>
  C1 (weight correctness). In the graph built from any frame, the weight of every edge
  (every entry \<open>(b, w)\<close> of the neighbour dict of a node \<open>a\<close>) is the number of distinct job
  types in which both \<open>a\<close> and \<open>b\<close> appear. The count is over job types, so several rows
  of a skill inside one job type add nothing.
\<close>

theorem weight_counts_groups:
  assumes "map_of (create_weighted_skill_graph df) a = Some e" and "(b, w) \<in> set (nbrs e)"
  shows "w = int (card (groups_with_both df a b))"
proof -
  have "edge_weight (create_weighted_skill_graph df) a b = Some w"
    using assms neighbor_weight by blast
  then show ?thesis
    by (simp add: edge_weight_create split: if_splits)
qed

text \<open>
  In \<open>df_lonely\<close> the job type 1 has two rows for A and one for B: the edge between A and B
  has weight 1.
\<close>

theorem weight_counts_groups_witness:
  "map_of (create_weighted_skill_graph df_lonely) ''A''
     = Some \<lparr>attrs = [(''region'', Some ''East'')], nbrs = [(''B'', 1)]\<rparr>
   \<and> (''B'', 1) \<in> set (nbrs \<lparr>attrs = [(''region'', Some ''East'')], nbrs = [(''B'', 1)]\<rparr>)
   \<and> (1::int) = int (card (groups_with_both df_lonely ''A'' ''B''))"
proof -
  have m: "map_of (create_weighted_skill_graph df_lonely) ''A''
     = Some \<lparr>attrs = [(''region'', Some ''East'')], nbrs = [(''B'', 1)]\<rparr>"
    by code_simp
  have n: "(''B'', 1) \<in> set (nbrs \<lparr>attrs = [(''region'', Some ''East'')], nbrs = [(''B'', 1::int)]\<rparr>)"
    by simp
  from weight_counts_groups[OF m n] m n show ?thesis by blast
qed

text \<open>
  C2 (order of the top neighbours), as the spec has it: weight descending, and equal weights
  in ascending order of the skill identifier. The code sorts by weight only. In \<open>df_tie\<close> the
  job type lists A, C, B, so the neighbours C and B of A both have weight 1 and stand in
  this order in the neighbour dict of A; the query returns C before B.
\<close>

theorem tie_break_counterexample:
  "map_of (create_weighted_skill_graph df_tie) ''A''
     = Some \<lparr>attrs = [(''region'', None)], nbrs = [(''C'', 1), (''B'', 1)]\<rparr>
   \<and> top_neighbors [(''C'', 1), (''B'', 1)] = [(''C'', 1), (''B'', 1)]
   \<and> ''B'' < ''C''
   \<and> \<not> descending_then_lexicographic (top_neighbors [(''C'', 1), (''B'', 1)])"
  by code_simp

text \<open>
  C2, amended. For every graph and every queried skill that is a node of it, the neighbour
  lines printed are those of \<open>top_neighbors\<close>, which is ordered by descending weight; the
  neighbours of any one weight \<open>w\<close> appear in the order in which they stand in the node's
  neighbour dict (the order in which their edges were added), cut where the limit of 10 cuts.
\<close>

theorem top_neighbors_order:
  assumes "map_of G s = Some e"
  shows "butlast (tl (snd (user_interface G s))) = map neighbor_line (top_neighbors (nbrs e))
    \<and> sorted_wrt (\<lambda>x y. snd y \<le> snd x) (top_neighbors (nbrs e))
    \<and> prefix (filter (\<lambda>x. snd x = w) (top_neighbors (nbrs e))) (filter (\<lambda>x. snd x = w) (nbrs e))"
proof -
  have "sorted_wrt (\<lambda>x y. snd y \<le> snd x) (top_neighbors (nbrs e))"
    unfolding top_neighbors_def sorted_neighbors_def
    by (rule sorted_wrt_take[OF sorted_reverse_descending])
  moreover have "prefix (filter (\<lambda>x. snd x = w) (top_neighbors (nbrs e)))
      (filter (\<lambda>x. snd x = w) (nbrs e))"
    using prefix_filter_take[of "\<lambda>x. snd x = w" 10 "sorted_neighbors (nbrs e)"]
    by (simp add: top_neighbors_def sorted_neighbors_def sorted_reverse_stable)
  ultimately show ?thesis
    using printed_neighbors[OF assms] by simp
qed

theorem top_neighbors_order_witness:
  "map_of (create_weighted_skill_graph df_tie) ''A''
     = Some \<lparr>attrs = [(''region'', None)], nbrs = [(''C'', 1), (''B'', 1)]\<rparr>
   \<and> sorted_wrt (\<lambda>x y. snd y \<le> snd x) (top_neighbors [(''C'', 1), (''B'', 1)])
   \<and> prefix (filter (\<lambda>x. snd x = 1) (top_neighbors [(''C'', 1), (''B'', 1)]))
             (filter (\<lambda>x. snd x = 1) [(''C'', 1), (''B'', 1)])"
proof -
  have m: "map_of (create_weighted_skill_graph df_tie) ''A''
     = Some \<lparr>attrs = [(''region'', None)], nbrs = [(''C'', 1), (''B'', 1)]\<rparr>"
    by code_simp
  from top_neighbors_order[OF m, of 1] m show ?thesis by simp
qed

text \<open>
  C3 (unknown skill), as the spec has it: the query raises a typed \<open>NotFoundError\<close>. The code
  prints the message and returns normally: for the skill Z, which is no node of the graph of
  \<open>df_spec\<close>, the outcome is \<open>Inr ()\<close>, not an error.
\<close>

theorem not_found_counterexample:
  "map_of (create_weighted_skill_graph df_spec) ''Z'' = None
   \<and> \<not> isl (fst (user_interface (create_weighted_skill_graph df_spec) ''Z''))
   \<and> user_interface (create_weighted_skill_graph df_spec) ''Z''
       = (Inr (), [''Skill ID not found in the network.''])"
  by code_simp

text \<open>
  C3, amended. For every graph and every skill identifier that is not a node of it, the
  query prints the one message \<open>Skill ID not found in the network.\<close> and returns normally;
  no neighbour line, so no partial result, is printed.
\<close>

theorem not_found_prints:
  "map_of G s = None \<Longrightarrow> user_interface G s = (Inr (), [''Skill ID not found in the network.''])"
  by (simp add: user_interface_def)

theorem not_found_prints_witness:
  "map_of (create_weighted_skill_graph df_lonely) ''C'' = None
   \<and> user_interface (create_weighted_skill_graph df_lonely) ''C''
       = (Inr (), [''Skill ID not found in the network.''])"
proof -
  have m: "map_of (create_weighted_skill_graph df_lonely) ''C'' = None"
    by code_simp
  from not_found_prints[OF m] m show ?thesis by simp
qed

text \<open>
  C4 (regional insights). The function counts the distinct cells of a column \<open>'JobType'\<close>,
  not of \<open>'Element ID'\<close>. On \<open>df_lonely\<close>, a frame with the columns \<open>'Element ID'\<close>,
  \<open>'Element Name'\<close> and \<open>'Region'\<close>, selecting that column raises \<open>KeyError\<close>, where the
  claim has the mapping of East to 1 and West to 1.
\<close>

theorem regional_insights_key_error:
  "get_regional_insights df_lonely = Inl (KeyError ''Column not found: JobType'')"
  by code_simp

text \<open>
  C5 (region of a node), as the spec has it: the first non-empty region of the skill. In
  \<open>df_tie\<close> the first row of A has an empty region and a later row has West; the node of A
  gets the empty region.
\<close>

theorem first_region_counterexample:
  "map_option attrs (map_of (create_weighted_skill_graph df_tie) ''A'') = Some [(''region'', None)]
   \<and> first_nonempty_region df_tie ''A'' = Some ''West''"
  by code_simp

text \<open>
  C5, amended. For every frame and every skill, with \<open>r\<close> the first row of that skill in
  record order, the node of the skill has the one attribute \<open>region\<close>, and its value is the
  region cell of \<open>r\<close>, empty or not, when the frame has a \<open>'Region'\<close> column, and no region
  otherwise. Later rows of the skill, agreeing or not, are not looked at.
\<close>

theorem node_region_first_seen:
  assumes "List.find (\<lambda>r. element_name r = s) (rows df) = Some r"
  shows "map_option attrs (map_of (create_weighted_skill_graph df) s) =
     Some [(''region'', if ''Region'' \<in> set (optional_columns df) then region r else None)]"
proof -
  have "s \<in> element_name ` set (rows df)"
    using assms by (auto simp: find_Some_iff)
  then show ?thesis
    by (simp add: attrs_create node_region_first[OF assms])
qed

text \<open>In \<open>df_lonely\<close> the rows of A have the regions East and West, in this order.\<close>

theorem node_region_first_seen_witness:
  "List.find (\<lambda>r. element_name r = ''A'') (rows df_lonely) = Some (mk_row 1 ''A'' (Some ''East''))
   \<and> map_option attrs (map_of (create_weighted_skill_graph df_lonely) ''A'')
       = Some [(''region'', Some ''East'')]"
proof -
  have f: "List.find (\<lambda>r. element_name r = ''A'') (rows df_lonely) = Some (mk_row 1 ''A'' (Some ''East''))"
    by code_simp
  have c: "''Region'' \<in> set (optional_columns df_lonely)"
    by (simp add: df_lonely_def)
  have r: "region (mk_row 1 ''A'' (Some ''East'')) = Some ''East''"
    by (simp add: mk_row_def)
  from node_region_first_seen[OF f] f c r show ?thesis by simp
qed

text \<open>
  C6 (top-K boundary). For every graph and every queried node, with \<open>d\<close> the number of its
  neighbours, the query prints the lines of \<open>top_neighbors\<close>, which has at most 10 entries,
  exactly \<open>d\<close> entries when \<open>d < 10\<close>, and is empty when \<open>d = 0\<close>.
\<close>

theorem top_k_boundary:
  assumes "map_of G s = Some e"
  shows "butlast (tl (snd (user_interface G s))) = map neighbor_line (top_neighbors (nbrs e))
    \<and> length (top_neighbors (nbrs e)) \<le> 10
    \<and> (length (nbrs e) < 10 \<longrightarrow> length (top_neighbors (nbrs e)) = length (nbrs e))
    \<and> (length (nbrs e) = 0 \<longrightarrow> top_neighbors (nbrs e) = [])"
  using printed_neighbors[OF assms]
  by (simp add: top_neighbors_def sorted_neighbors_def sorted_reverse_def)

text \<open>A in \<open>df_spec\<close> has two neighbours, D in \<open>df_lonely\<close> has none.\<close>

theorem top_k_boundary_witness:
  "map_of (create_weighted_skill_graph df_spec) ''A''
     = Some \<lparr>attrs = [(''region'', None)], nbrs = [(''B'', 2), (''C'', 1)]\<rparr>
   \<and> length [(''B'', 2::int), (''C'', 1)] < 10
   \<and> length (top_neighbors [(''B'', 2), (''C'', 1)]) = length [(''B'', 2::int), (''C'', 1)]
   \<and> map_of (create_weighted_skill_graph df_lonely) ''D''
     = Some \<lparr>attrs = [(''region'', None)], nbrs = []\<rparr>
   \<and> length ([] :: (string \<times> int) list) = 0
   \<and> top_neighbors [] = []"
proof -
  have a: "map_of (create_weighted_skill_graph df_spec) ''A''
     = Some \<lparr>attrs = [(''region'', None)], nbrs = [(''B'', 2), (''C'', 1)]\<rparr>"
    by code_simp
  have d: "map_of (create_weighted_skill_graph df_lonely) ''D''
     = Some \<lparr>attrs = [(''region'', None)], nbrs = []\<rparr>"
    by code_simp
  from top_k_boundary[OF a] top_k_boundary[OF d] a d show ?thesis by simp
qed

text \<open>
  C7 (commutativity of grouping). For every frame, iterating over the job-type groups in
  any other order (each group keeping its rows in their order) gives the same mapping from
  pairs to counts: the same pairs, each with the same count.
\<close>

theorem grouping_order_irrelevant:
  "mset gs = mset (groupby_element_id df) \<Longrightarrow>
   map_of (co_occurrence_of gs) = map_of (co_occurrence df)"
  unfolding co_occurrence_def by (rule co_permute)

text \<open>
  The groups of \<open>df_chain\<close> in descending order of the job type: the dict is filled in
  another order and maps the same pairs to the same counts.
\<close>

theorem grouping_order_irrelevant_witness:
  "mset (rev (groupby_element_id df_chain)) = mset (groupby_element_id df_chain)
   \<and> co_occurrence df_chain = [((''A'', ''B''), 1), ((''B'', ''C''), 1)]
   \<and> co_occurrence_of (rev (groupby_element_id df_chain)) = [((''B'', ''C''), 1), ((''A'', ''B''), 1)]
   \<and> map_of (co_occurrence_of (rev (groupby_element_id df_chain))) = map_of (co_occurrence df_chain)"
proof -
  have m: "mset (rev (groupby_element_id df_chain)) = mset (groupby_element_id df_chain)"
    by simp
  have c: "co_occurrence df_chain = [((''A'', ''B''), 1), ((''B'', ''C''), 1)]"
    by code_simp
  have r: "co_occurrence_of (rev (groupby_element_id df_chain)) = [((''B'', ''C''), 1), ((''A'', ''B''), 1)]"
    by code_simp
  from grouping_order_irrelevant[OF m] m c r show ?thesis by blast
qed

text \<open>
  C8 (no self-loops). In the graph built from any frame, no node is its own neighbour.
\<close>

theorem no_self_loops:
  assumes "map_of (create_weighted_skill_graph df) a = Some e"
  shows "(a, w) \<notin> set (nbrs e)"
proof
  assume "(a, w) \<in> set (nbrs e)"
  then have "edge_weight (create_weighted_skill_graph df) a a = Some w"
    using neighbor_weight[OF assms] by blast
  then show False by (simp add: edge_weight_create)
qed

theorem no_self_loops_witness:
  "map_of (create_weighted_skill_graph df_spec) ''A''
     = Some \<lparr>attrs = [(''region'', None)], nbrs = [(''B'', 2), (''C'', 1)]\<rparr>
   \<and> (''A'', 2) \<notin> set (nbrs \<lparr>attrs = [(''region'', None)], nbrs = [(''B'', 2), (''C'', 1)]\<rparr>)"
proof -
  have a: "map_of (create_weighted_skill_graph df_spec) ''A''
     = Some \<lparr>attrs = [(''region'', None)], nbrs = [(''B'', 2), (''C'', 1)]\<rparr>"
    by code_simp
  from no_self_loops[OF a, of 2] a show ?thesis by blast
qed

text \<open>
  C9 (symmetry). In the graph built from any frame, an edge from \<open>a\<close> to \<open>b\<close> of weight \<open>w\<close>
  is in the sorted neighbours of \<open>a\<close> (lines 135 and 136) with weight \<open>w\<close>, and \<open>b\<close> is a node
  whose sorted neighbours hold \<open>a\<close> with the same weight.
\<close>

theorem edges_symmetric:
  assumes "map_of (create_weighted_skill_graph df) a = Some ea" and "(b, w) \<in> set (nbrs ea)"
  shows "(b, w) \<in> set (sorted_neighbors (nbrs ea))
    \<and> (\<exists>eb. map_of (create_weighted_skill_graph df) b = Some eb
            \<and> (a, w) \<in> set (sorted_neighbors (nbrs eb)))"
proof -
  have ab: "edge_weight (create_weighted_skill_graph df) a b = Some w"
    using neighbor_weight[OF assms(1)] assms(2) by blast
  then have "edge_weight (create_weighted_skill_graph df) b a = Some w"
    using groups_with_both_commute[of df a b]
    by (simp add: edge_weight_create split: if_splits)
  then obtain eb where eb: "map_of (create_weighted_skill_graph df) b = Some eb"
    and w: "map_of (nbrs eb) a = Some w"
    by (auto simp: edge_weight_def split: option.splits)
  from w have "(a, w) \<in> set (nbrs eb)" by (rule map_of_SomeD)
  with eb assms(2) show ?thesis
    by (simp add: sorted_neighbors_def)
qed

theorem edges_symmetric_witness:
  "map_of (create_weighted_skill_graph df_spec) ''A''
     = Some \<lparr>attrs = [(''region'', None)], nbrs = [(''B'', 2), (''C'', 1)]\<rparr>
   \<and> (''C'', 1) \<in> set (nbrs \<lparr>attrs = [(''region'', None)], nbrs = [(''B'', 2), (''C'', 1)]\<rparr>)
   \<and> (''C'', 1) \<in> set (sorted_neighbors [(''B'', 2), (''C'', 1)])
   \<and> (\<exists>eb. map_of (create_weighted_skill_graph df_spec) ''C'' = Some eb
            \<and> (''A'', 1) \<in> set (sorted_neighbors (nbrs eb)))"
proof -
  have a: "map_of (create_weighted_skill_graph df_spec) ''A''
     = Some \<lparr>attrs = [(''region'', None)], nbrs = [(''B'', 2), (''C'', 1)]\<rparr>"
    by code_simp
  have n: "(''C'', 1) \<in> set (nbrs \<lparr>attrs = [(''region'', None)], nbrs = [(''B'', 2::int), (''C'', 1)]\<rparr>)"
    by simp
  from edges_symmetric[OF a n] a n show ?thesis by simp
qed

text \<open>
  C10 (node set). The nodes of the graph built from any frame are exactly the skill names
  of its rows, each once; adding the edges leaves the nodes as the node loop made them,
  since both endpoints of every counted pair are nodes already.
\<close>

theorem node_set_exact:
  "set (map fst (create_weighted_skill_graph df)) = element_name ` set (rows df)
   \<and> distinct (map fst (create_weighted_skill_graph df))
   \<and> map fst (create_weighted_skill_graph df) = map fst (add_nodes df [])
   \<and> (((a, b), w) \<in> set (co_occurrence df) \<longrightarrow>
        a \<in> set (map fst (add_nodes df [])) \<and> b \<in> set (map fst (add_nodes df [])))"
proof -
  have "((a, b), w) \<in> set (co_occurrence df) \<longrightarrow>
        a \<in> set (map fst (add_nodes df [])) \<and> b \<in> set (map fst (add_nodes df []))"
    using endpoints_co_occurrence[of df] unfolding endpoints_in_def set_map by blast
  then show ?thesis
    by (simp add: keys_create keys_add_nodes)
qed

theorem node_set_exact_witness:
  "((''A'', ''B''), 1) \<in> set (co_occurrence df_lonely)
   \<and> map fst (create_weighted_skill_graph df_lonely) = [''A'', ''B'', ''D'']
   \<and> map fst (add_nodes df_lonely []) = [''A'', ''B'', ''D'']
   \<and> element_name ` set (rows df_lonely) = {''A'', ''B'', ''D''}
   \<and> ''A'' \<in> set (map fst (add_nodes df_lonely []))
   \<and> ''B'' \<in> set (map fst (add_nodes df_lonely []))"
proof -
  have c: "((''A'', ''B''), 1) \<in> set (co_occurrence df_lonely)"
    by code_simp
  have g: "map fst (create_weighted_skill_graph df_lonely) = [''A'', ''B'', ''D'']"
    by code_simp
  from node_set_exact[of df_lonely "''A''" "''B''" 1] c g show ?thesis by auto
qed

end
